theory Spec2Isabelle
  imports Main "HOL-Library.Sublist" "HOL-Library.AList"
begin


section \<open>snscrape command-line driver (src/snscrape/cli.py)\<close>

subsection \<open>Exceptions, stack frames and failures\<close>

text \<open>
  A Python exception: its class name, its message, and whether the class derives from
  \<open>Exception\<close> (\<open>KeyboardInterrupt\<close>, \<open>SystemExit\<close> and \<open>GeneratorExit\<close> do not, and
  \<open>except Exception\<close> lets them pass).
\<close>

record exc =
  exc_class :: string
  exc_msg :: string
  is_Exception :: bool

text \<open>
  One entry of \<open>inspect.trace()\<close>, reduced to what \<open>_dump_locals_on_exception\<close> reads:
  \<^item> \<open>frame_module\<close>: \<open>inspect.getmodule(frameRecord[0])\<close>, as the module's \<open>__name__\<close>;
    \<open>None\<close> when \<open>inspect.getmodule\<close> returns \<open>None\<close> (it does for a frame whose code
    object's file maps to no imported module, such as code run by \<open>exec\<close>);
  \<^item> \<open>filename\<close>, \<open>lineno\<close>, \<open>func\<close>: the record's \<open>filename\<close>, \<open>lineno\<close> and \<open>function\<close>;
  \<^item> \<open>locals_repr\<close>: \<open>repr(frameRecord[0].f_locals)\<close>;
  \<^item> \<open>self_dict_repr\<close>: \<open>Some (repr(locals_['self'].__dict__))\<close> when \<open>'self' in locals_\<close>
    and \<open>hasattr(locals_['self'], '__dict__')\<close>, \<open>None\<close> otherwise.
\<close>

record frameRecord =
  frame_module :: "string option"
  filename :: string
  lineno :: nat
  func :: string
  locals_repr :: string
  self_dict_repr :: "string option"

text \<open>A failure in flight: the exception and the trace \<open>inspect.trace()\<close> shows for it.\<close>

type_synonym failure = "exc \<times> frameRecord list"

subsection \<open>The execution loop of \<open>main\<close>\<close>

text \<open>
  An item of the scraper: \<open>date\<close> is \<open>item.date\<close> as an absolute instant (seconds since
  the epoch), \<open>asdict\<close> is \<open>item._asdict()\<close>, \<open>item_str\<close> is \<open>str(item)\<close>.
\<close>

record item =
  date :: int
  asdict :: "(string \<times> string) list"
  item_str :: string

text \<open>
  One pull from the generator \<open>scraper.get_items()\<close>: it yields an item or raises.
  The generator is the list of its pulls, in order.
\<close>

datatype pull = Yield item | Fail failure

text \<open>
  A scraper class: its \<open>__qualname__\<close>, its attribute \<open>name\<close> (\<open>None\<close> on the base class
  and on every class that does not set it) and the result of \<open>cls.__subclasses__()\<close>, the
  classes that derive from it directly. A class with two bases stands under each of them.
\<close>

datatype cls = Cls (qualname: string) (name: "string option") (subclasses: "cls list")

text \<open>
  The namespace of \<open>parser.parse_args()\<close>. \<open>since\<close> is the instant of the aware datetime
  that \<open>parse_datetime_arg\<close> returned, in seconds since the epoch; \<open>scraper\<close> is the
  subcommand (\<open>dest = 'scraper'\<close>), \<open>cls\<close> the default that the subparser of the
  subcommand set (\<open>subparser.set_defaults(cls = cls)\<close>).
\<close>

record args =
  verbosity :: nat
  retries :: int
  maxResults :: "int option"
  format :: "string option"
  since :: "int option"
  scraper :: "string option"
  cls :: "cls option"

text \<open>
  How the loop ended, which is also the one message it logs:
  \<^item> \<open>Cutoff\<close>: \<open>break\<close> after "Exiting due to reaching older results than {since}";
  \<^item> \<open>Cap i\<close>: \<open>break\<close> after "Exiting after {i} results";
  \<^item> \<open>Done i\<close>: the \<open>else\<close> branch of the \<open>for\<close>, "Done, found {i} results";
  \<^item> \<open>Raised f\<close>: an exception left the loop body.
\<close>

datatype ending = Cutoff | Cap nat | Done nat | Raised failure

text \<open>
  \<open>print(args.format.format(**item._asdict()))\<close> or \<open>print(item)\<close>. \<open>str.format\<close> belongs
  to the Python library: it is the parameter \<open>str_format\<close>, which may raise.
\<close>

definition render ::
  "(string \<Rightarrow> (string \<times> string) list \<Rightarrow> failure + string) \<Rightarrow> args \<Rightarrow> item \<Rightarrow> failure + string" where
  "render str_format a it =
     (case format a of
        Some f \<Rightarrow> str_format f (asdict it)
      | None \<Rightarrow> Inr (item_str it))"

text \<open>
  \<open>args.maxResults and i >= args.maxResults\<close>: \<open>None\<close> and \<open>0\<close> are falsy.
\<close>

definition cap_reached :: "args \<Rightarrow> nat \<Rightarrow> bool" where
  "cap_reached a i =
     (case maxResults a of
        None \<Rightarrow> False
      | Some m \<Rightarrow> m \<noteq> 0 \<and> int i \<ge> m)"

definition older_than_since :: "args \<Rightarrow> item \<Rightarrow> bool" where
  "older_than_since a it =
     (case since a of
        None \<Rightarrow> False
      | Some s \<Rightarrow> date it < s)"

text \<open>
  \<open>for i, item in enumerate(scraper.get_items(), start = 1)\<close>. The second argument is
  the value of \<open>i\<close> before the pull (\<open>i = 0\<close> before the loop), the last one the lines
  printed so far. The result is the printed lines and the ending.
\<close>

fun loop ::
  "(string \<Rightarrow> (string \<times> string) list \<Rightarrow> failure + string) \<Rightarrow> args \<Rightarrow> nat \<Rightarrow> pull list
     \<Rightarrow> string list \<Rightarrow> string list \<times> ending" where
  "loop str_format a i [] out = (out, Done i)"
| "loop str_format a i (Fail f # rest) out = (out, Raised f)"
| "loop str_format a i (Yield it # rest) out =
     (if older_than_since a it then (out, Cutoff)
      else (case render str_format a it of
              Inl f \<Rightarrow> (out, Raised f)
            | Inr line \<Rightarrow>
                if cap_reached a (Suc i) then (out @ [line], Cap (Suc i))
                else loop str_format a (Suc i) rest (out @ [line])))"

text \<open>Sample data for running the loop: a namespace with given \<open>maxResults\<close> and
  \<open>since\<close> and no \<open>format\<close>, an item with a date and a text, and a \<open>str.format\<close> that
  raises \<open>KeyError\<close> on every template.\<close>

definition args_of :: "int option \<Rightarrow> int option \<Rightarrow> args" where
  "args_of m s =
     \<lparr>verbosity = 0, retries = 3, maxResults = m, format = None, since = s,
      scraper = Some ''twitter-user'',
      cls = Some (Cls ''TwitterUserScraper'' (Some ''twitter-user'') [])\<rparr>"

definition item_dated :: "int \<Rightarrow> string \<Rightarrow> item" where
  "item_dated d s = \<lparr>date = d, asdict = [(''date'', s)], item_str = s\<rparr>"

definition no_format :: "string \<Rightarrow> (string \<times> string) list \<Rightarrow> failure + string" where
  "no_format f d = Inl (\<lparr>exc_class = ''KeyError'', exc_msg = f, is_Exception = True\<rparr>, [])"



subsection \<open>Crash diagnostics: \<open>_dump_locals_on_exception\<close>\<close>

text \<open>Decimal digits of a line number, as the f-string prints \<open>{frameRecord.lineno}\<close>.\<close>

fun str_nat :: "nat \<Rightarrow> string" where
  "str_nat n =
     (if n < 10 then [''0123456789'' ! n]
      else str_nat (n div 10) @ [''0123456789'' ! (n mod 10)])"

declare str_nat.simps [simp del]

text \<open>
  The test before \<open>continue\<close>, on \<open>module.__name__\<close>:
  \<open>not module.__name__.startswith('snscrape.') and module.__name__ != 'snscrape'\<close>.
\<close>

definition foreign_module :: "string \<Rightarrow> bool" where
  "foreign_module modname = (\<not> prefix ''snscrape.'' modname \<and> modname \<noteq> ''snscrape'')"

text \<open>The \<open>fp.write\<close> calls for one frame, one string per call.\<close>

definition frame_writes :: "frameRecord \<Rightarrow> string list" where
  "frame_writes fr =
     [''Locals from file '' @ [CHR 34] @ filename fr @ [CHR 34] @ '', line '' @ str_nat (lineno fr)
        @ '', in '' @ func fr @ '':'' @ [CHR 10],
      locals_repr fr,
      [CHR 10]]
     @ (case self_dict_repr fr of
          Some d \<Rightarrow> [''Object dict:'' @ [CHR 10], d]
        | None \<Rightarrow> [])
     @ [[CHR 10, CHR 10]]"

text \<open>
  What \<open>module.__name__\<close> raises when \<open>inspect.getmodule\<close> returned \<open>None\<close>.
\<close>

definition AttributeError :: exc where
  "AttributeError =
     \<lparr>exc_class = ''AttributeError'',
      exc_msg = [CHR 39] @ ''NoneType'' @ [CHR 39] @ '' object has no attribute ''
                  @ [CHR 39] @ ''__name__'' @ [CHR 39],
      is_Exception = True\<rparr>"

text \<open>
  \<open>for frameRecord in trace[2:]\<close>, with the strings written to \<open>fp\<close> so far. The result
  is what the file holds when the loop ends and the exception that ended it, if any.
\<close>

fun dump_frames :: "frameRecord list \<Rightarrow> string list \<Rightarrow> string list \<times> exc option" where
  "dump_frames [] written = (written, None)"
| "dump_frames (fr # frs) written =
     (case frame_module fr of
        None \<Rightarrow> (written, Some AttributeError)
      | Some modname \<Rightarrow>
          if foreign_module modname then dump_frames frs written
          else dump_frames frs (written @ frame_writes fr))"

text \<open>
  What the context manager leaves behind when its body raised: the files created (name
  and the strings written), the messages of \<open>logger.fatal\<close>, and the exception that
  leaves the \<open>with\<close> statement.
\<close>

record dumped =
  files :: "(string \<times> string list) list"
  fatal :: "string list"
  raised :: exc

text \<open>
  The \<open>except Exception\<close> branch of \<open>_dump_locals_on_exception\<close>, for a body that raised
  \<open>e\<close> with \<open>inspect.trace()\<close> equal to \<open>trace\<close>. \<open>tempname\<close> stands for
  \<open>tempfile.NamedTemporaryFile\<close>: it maps the prefix to the name of the file it creates
  (\<open>fp.name\<close>). The file is created with \<open>delete = False\<close>, so it stays when the loop over
  the frames raises.
\<close>

definition dump_locals_on_exception :: "(string \<Rightarrow> string) \<Rightarrow> failure \<Rightarrow> dumped" where
  "dump_locals_on_exception tempname f =
     (case f of (e, trace) \<Rightarrow>
        if \<not> is_Exception e then \<lparr>files = [], fatal = [], raised = e\<rparr>
        else if length trace \<ge> 3 then
          (let fname = tempname ''snscrape_locals_'' in
           case dump_frames (drop 2 trace) [] of
             (written, Some err) \<Rightarrow> \<lparr>files = [(fname, written)], fatal = [], raised = err\<rparr>
           | (written, None) \<Rightarrow>
               \<lparr>files = [(fname, written)],
                fatal = [''Local variables logged to '' @ fname],
                raised = e\<rparr>)
        else \<lparr>files = [], fatal = [], raised = e\<rparr>)"

text \<open>A frame whose locals are written: its module is known and passes the test.\<close>

definition in_snscrape :: "frameRecord \<Rightarrow> bool" where
  "in_snscrape fr =
     (case frame_module fr of
        None \<Rightarrow> False
      | Some modname \<Rightarrow> \<not> foreign_module modname)"

text \<open>Sample data: a frame with given module, file, line, function and locals; an
  exception; a \<open>tempfile\<close> that names its file in \<open>/tmp\<close>.\<close>

definition frame_of :: "string option \<Rightarrow> string \<Rightarrow> nat \<Rightarrow> string \<Rightarrow> string \<Rightarrow> frameRecord" where
  "frame_of m file line fn locs =
     \<lparr>frame_module = m, filename = file, lineno = line, func = fn,
      locals_repr = locs, self_dict_repr = None\<rparr>"

definition ConnectionError :: exc where
  "ConnectionError =
     \<lparr>exc_class = ''ConnectionError'', exc_msg = ''connection reset'', is_Exception = True\<rparr>"

definition tempname_tmp :: "string \<Rightarrow> string" where
  "tempname_tmp pre = ''/tmp/'' @ pre @ ''k3x9f2ab''"



subsection \<open>Registration of the scraper classes: \<open>parse_args\<close>\<close>

text \<open>
  The subparsers action of \<open>argparse\<close> is its dictionary \<open>_name_parser_map\<close>, from the
  name of a subcommand to its parser; the parser stands here for the class it sets as
  default \<open>cls\<close>. \<open>add_parser\<close> belongs to the Python library and is a parameter of the
  loop: it returns the new dictionary or raises.
\<close>

type_synonym subparsers = "(string \<times> cls) list"

type_synonym add_parser = "subparsers \<Rightarrow> string \<Rightarrow> cls \<Rightarrow> exc + subparsers"

text \<open>
  The body of the \<open>if cls.name is not None\<close> statement: \<open>add_parser(cls.name, ...)\<close>,
  \<open>cls.setup_parser(subparser)\<close>, \<open>subparser.set_defaults(cls = cls)\<close>.
\<close>

definition register_cls :: "add_parser \<Rightarrow> cls \<Rightarrow> subparsers \<Rightarrow> exc + subparsers" where
  "register_cls ap c sp =
     (case name c of
        None \<Rightarrow> Inr sp
      | Some n \<Rightarrow> ap sp n c)"

text \<open>The number of classes at and below a class.\<close>

fun nodes :: "cls \<Rightarrow> nat" where
  "nodes (Cls q n subs) = Suc (sum_list (map nodes subs))"

text \<open>
  \<open>for cls in classes: ...; classes.extend(cls.__subclasses__())\<close>: the list grows while
  the loop runs over it; \<open>i\<close> is the index of the next element.
\<close>

function register_loop ::
  "add_parser \<Rightarrow> cls list \<Rightarrow> nat \<Rightarrow> subparsers \<Rightarrow> exc + (cls list \<times> subparsers)" where
  "register_loop ap classes i sp =
     (if i < length classes then
        (case register_cls ap (classes ! i) sp of
           Inl e \<Rightarrow> Inl e
         | Inr sp' \<Rightarrow> register_loop ap (classes @ subclasses (classes ! i)) (Suc i) sp')
      else Inr (classes, sp))"
  by pat_completeness auto

termination register_loop
proof (relation "measure (\<lambda>(ap, classes, i, sp). sum_list (map nodes (drop i classes)))")
  show "wf (measure (\<lambda>(ap, classes, i, sp). sum_list (map nodes (drop i classes))))" by simp
next
  fix ap :: add_parser and classes :: "cls list" and i :: nat and sp x2 :: subparsers
  assume i: "i < length classes"
  have "drop i classes = classes ! i # drop (Suc i) classes"
    using i by (simp add: Cons_nth_drop_Suc)
  then have "sum_list (map nodes (drop i classes))
             = nodes (classes ! i) + sum_list (map nodes (drop (Suc i) classes))"
    by simp
  moreover have "drop (Suc i) (classes @ subclasses (classes ! i))
                 = drop (Suc i) classes @ subclasses (classes ! i)"
    using i by simp
  moreover have "nodes (classes ! i) = Suc (sum_list (map nodes (subclasses (classes ! i))))"
    by (cases "classes ! i") simp
  ultimately show "((ap, classes @ subclasses (classes ! i), Suc i, x2), (ap, classes, i, sp))
        \<in> measure (\<lambda>(ap, classes, i, sp). sum_list (map nodes (drop i classes)))"
    by simp
qed

declare register_loop.simps [simp del]

text \<open>
  \<open>add_parser\<close> of the \<open>argparse\<close> the code was written for (the comment in \<open>parse_args\<close>
  names Python 3.7 as the new release): \<open>self._name_parser_map[name] = parser\<close>, with no
  test of the name.
\<close>

definition add_parser_store :: add_parser where
  "add_parser_store sp n c = Inr (AList.update n c sp)"

text \<open>
  \<open>add_parser\<close> of \<open>argparse\<close> from Python 3.11 on, which raises \<open>ArgumentError\<close> for a name
  that is in the dictionary.
\<close>

definition conflicting_subparser :: "string \<Rightarrow> exc" where
  "conflicting_subparser n =
     \<lparr>exc_class = ''ArgumentError'', exc_msg = ''conflicting subparser: '' @ n,
      is_Exception = True\<rparr>"

definition add_parser_checked :: add_parser where
  "add_parser_checked sp n c =
     (if n \<in> fst ` set sp then Inl (conflicting_subparser n)
      else Inr (AList.update n c sp))"

text \<open>
  The order of the traversal, as a queue: the first class leaves the queue and the classes
  that derive from it join its end.
\<close>

function traversal :: "cls list \<Rightarrow> cls list" where
  "traversal [] = []"
| "traversal (c # queue) = c # traversal (queue @ subclasses c)"
  by pat_completeness auto

termination traversal
proof (relation "measure (\<lambda>queue. sum_list (map nodes queue))")
  show "wf (measure (\<lambda>queue. sum_list (map nodes queue)))" by simp
next
  fix c :: cls and queue :: "cls list"
  have "nodes c = Suc (sum_list (map nodes (subclasses c)))"
    by (cases c) simp
  then show "(queue @ subclasses c, c # queue) \<in> measure (\<lambda>queue. sum_list (map nodes queue))"
    by simp
qed

text \<open>The classes that derive from a class through any number of levels.\<close>

fun descendants :: "cls \<Rightarrow> cls set" where
  "descendants (Cls q n subs) = (\<Union>s \<in> set subs. insert s (descendants s))"

text \<open>The registrations of a list of classes, in its order: name and class of every
  class whose \<open>name\<close> is not \<open>None\<close>.\<close>

definition named :: "cls list \<Rightarrow> (string \<times> cls) list" where
  "named cs = List.map_filter (\<lambda>c. map_option (\<lambda>n. (n, c)) (name c)) cs"

text \<open>Calling \<open>add_parser\<close> for a list of registrations, up to the first that raises.\<close>

fun register_all :: "add_parser \<Rightarrow> (string \<times> cls) list \<Rightarrow> subparsers \<Rightarrow> exc + subparsers" where
  "register_all ap [] sp = Inr sp"
| "register_all ap ((n, c) # rest) sp =
     (case ap sp n c of
        Inl e \<Rightarrow> Inl e
      | Inr sp' \<Rightarrow> register_all ap rest sp')"

text \<open>Sample hierarchies: one with a class without name between the base and named
  classes, one with two classes under one name.\<close>

definition Scraper_sample :: cls where
  "Scraper_sample =
     Cls ''Scraper'' None
       [Cls ''TwitterCommon'' None
          [Cls ''TwitterUserScraper'' (Some ''twitter-user'') [],
           Cls ''TwitterSearchScraper'' (Some ''twitter-search'')
             [Cls ''TwitterHashtagScraper'' (Some ''twitter-hashtag'') []]],
        Cls ''GabScraper'' (Some ''gab'') []]"

definition Scraper_shared :: cls where
  "Scraper_shared =
     Cls ''Scraper'' None
       [Cls ''TelegramScraper'' (Some ''channel'') [],
        Cls ''VKontakteScraper'' (Some ''channel'') []]"



subsection \<open>\<open>parse_args\<close> and \<open>main\<close>\<close>

text \<open>
  \<open>parser.parse_args()\<close> belongs to \<open>argparse\<close> and is a parameter: from the dictionary of
  the subparsers and the command line it returns the namespace or raises (\<open>SystemExit\<close>
  after its own error message).
\<close>

type_synonym parser_parse_args = "subparsers \<Rightarrow> string list \<Rightarrow> exc + args"

definition no_scraper_specified :: exc where
  "no_scraper_specified =
     \<lparr>exc_class = ''RuntimeError'', exc_msg = ''Error: no scraper specified'',
      is_Exception = True\<rparr>"

text \<open>
  \<open>parse_args\<close>: the registration of the classes below \<open>snscrape.base.Scraper\<close>, the
  call of \<open>parser.parse_args()\<close>, and the test \<open>if not args.scraper\<close>, which \<open>None\<close> and
  the empty string fail.
\<close>

definition parse_args :: "add_parser \<Rightarrow> parser_parse_args \<Rightarrow> cls \<Rightarrow> string list \<Rightarrow> exc + args" where
  "parse_args ap parse_argv Scraper argv =
     (case register_loop ap (subclasses Scraper) 0 [] of
        Inl e \<Rightarrow> Inl e
      | Inr (classes, sp) \<Rightarrow>
          (case parse_argv sp argv of
             Inl e \<Rightarrow> Inl e
           | Inr a \<Rightarrow>
               if scraper a = None \<or> scraper a = Some [] then Inl no_scraper_specified
               else Inr a))"

text \<open>
  What a run of \<open>main\<close> did: the classes whose \<open>from_args\<close> returned a scraper, the lines
  printed, the ending of the loop, what \<open>_dump_locals_on_exception\<close> left behind, and the
  exception that leaves \<open>main\<close>, if any.
\<close>

record run =
  constructed :: "cls list"
  printed :: "string list"
  ended :: "ending option"
  dumped :: "dumped option"
  uncaught :: "exc option"

text \<open>What \<open>args.cls\<close> raises on a namespace without the attribute.\<close>

definition no_cls_attribute :: exc where
  "no_cls_attribute =
     \<lparr>exc_class = ''AttributeError'',
      exc_msg = [CHR 39] @ ''Namespace'' @ [CHR 39] @ '' object has no attribute ''
                  @ [CHR 39] @ ''cls'' @ [CHR 39],
      is_Exception = True\<rparr>"

text \<open>
  \<open>main\<close>. \<open>from_args\<close> stands for \<open>args.cls.from_args(args)\<close> followed by
  \<open>scraper.get_items()\<close>: it raises or returns the scraper, given by the pulls of its
  generator. \<open>setup_logging\<close> only configures the \<open>logging\<close> module and is left out.
\<close>

definition main ::
  "add_parser \<Rightarrow> parser_parse_args \<Rightarrow> (cls \<Rightarrow> args \<Rightarrow> exc + pull list)
     \<Rightarrow> (string \<Rightarrow> (string \<times> string) list \<Rightarrow> failure + string) \<Rightarrow> (string \<Rightarrow> string)
     \<Rightarrow> cls \<Rightarrow> string list \<Rightarrow> run" where
  "main ap parse_argv from_args str_format tempname Scraper argv =
     (case parse_args ap parse_argv Scraper argv of
        Inl e \<Rightarrow>
          \<lparr>constructed = [], printed = [], ended = None, dumped = None, uncaught = Some e\<rparr>
      | Inr a \<Rightarrow>
          (case cls a of
             None \<Rightarrow>
               \<lparr>constructed = [], printed = [], ended = None, dumped = None,
                uncaught = Some no_cls_attribute\<rparr>
           | Some c \<Rightarrow>
               (case from_args c a of
                  Inl e \<Rightarrow>
                    \<lparr>constructed = [], printed = [], ended = None, dumped = None,
                     uncaught = Some e\<rparr>
                | Inr pulls \<Rightarrow>
                    (case loop str_format a 0 pulls [] of
                       (out, Raised f) \<Rightarrow>
                         (let d = dump_locals_on_exception tempname f
                          in \<lparr>constructed = [c], printed = out, ended = Some (Raised f),
                              dumped = Some d, uncaught = Some (raised d)\<rparr>)
                     | (out, e) \<Rightarrow>
                         \<lparr>constructed = [c], printed = out, ended = Some e, dumped = None,
                          uncaught = None\<rparr>))))"

text \<open>
  Sample data: an \<open>argparse\<close> for command lines without options (no argument: no
  subcommand, \<open>scraper\<close> is \<open>None\<close>; one argument: the subcommand of that name, or
  \<open>SystemExit\<close> for an unknown one), and a \<open>from_args\<close> whose scraper yields two items.
\<close>

definition SystemExit2 :: exc where
  "SystemExit2 = \<lparr>exc_class = ''SystemExit'', exc_msg = ''2'', is_Exception = False\<rparr>"

definition parse_argv_plain :: parser_parse_args where
  "parse_argv_plain sp argv =
     (case argv of
        [] \<Rightarrow>
          Inr \<lparr>verbosity = 0, retries = 3, maxResults = None, format = None, since = None,
               scraper = None, cls = None\<rparr>
      | [n] \<Rightarrow>
          (case map_of sp n of
             None \<Rightarrow> Inl SystemExit2
           | Some c \<Rightarrow>
               Inr \<lparr>verbosity = 0, retries = 3, maxResults = None, format = None, since = None,
                    scraper = Some n, cls = Some c\<rparr>)
      | _ \<Rightarrow> Inl SystemExit2)"

definition from_args_two :: "cls \<Rightarrow> args \<Rightarrow> exc + pull list" where
  "from_args_two c a = Inr [Yield (item_dated 5 ''e''), Yield (item_dated 4 ''d'')]"



subsection \<open>The datetime parser: \<open>parse_datetime_arg\<close>\<close>

text \<open>
  A \<open>datetime.datetime\<close> with whole seconds. \<open>naive_seconds\<close> holds the fields year to
  second, as the seconds from 1970-01-01 00:00:00 to them on the calendar of these fields;
  \<open>tzinfo\<close> is \<open>None\<close> for a naive value and the UTC offset in seconds for an aware one.
  The instant of an aware value is \<open>naive_seconds\<close> minus the offset.
\<close>

record datetime =
  naive_seconds :: int
  tzinfo :: "int option"

text \<open>\<open>datetime.timezone.utc\<close>, the offset zero.\<close>

definition utc :: int where
  "utc = 0"

text \<open>
  The functions of the Python library that \<open>parse_datetime_arg\<close> calls, as parameters:
  \<^item> \<open>strptime arg format\<close> is \<open>datetime.datetime.strptime(arg, format)\<close>, \<open>None\<close> when it
    raises \<open>ValueError\<close>;
  \<^item> \<open>py_int arg\<close> is \<open>int(arg)\<close>, \<open>None\<close> when it raises \<open>ValueError\<close>;
  \<^item> \<open>fromtimestamp_utc n\<close> is \<open>datetime.datetime.fromtimestamp(n, datetime.timezone.utc)\<close>,
    which returns a datetime or raises;
  \<^item> \<open>py_repr arg\<close> is \<open>repr(arg)\<close>, the \<open>{arg!r}\<close> of the message.
\<close>

record pylib =
  strptime :: "string \<Rightarrow> string \<Rightarrow> datetime option"
  py_int :: "string \<Rightarrow> int option"
  fromtimestamp_utc :: "int \<Rightarrow> exc + datetime"
  py_repr :: "string \<Rightarrow> string"

text \<open>The tuple of formats of the \<open>for\<close> loop, in its order.\<close>

definition formats :: "string list" where
  "formats = [''%Y-%m-%d %H:%M:%S %z'', ''%Y-%m-%d %H:%M:%S'', ''%Y-%m-%d %z'', ''%Y-%m-%d'']"

text \<open>
  \<open>for format in (...)\<close>: \<open>continue\<close> on \<open>ValueError\<close>, otherwise return the value, with
  \<open>d.replace(tzinfo = datetime.timezone.utc)\<close> when \<open>d.tzinfo is None\<close>. \<open>None\<close> when the
  loop ends without a \<open>return\<close>.
\<close>

fun try_formats :: "pylib \<Rightarrow> string \<Rightarrow> string list \<Rightarrow> datetime option" where
  "try_formats lib arg [] = None"
| "try_formats lib arg (fmt # fmts) =
     (case strptime lib arg fmt of
        None \<Rightarrow> try_formats lib arg fmts
      | Some d \<Rightarrow> if tzinfo d = None then Some (d\<lparr>tzinfo := Some utc\<rparr>) else Some d)"

text \<open>\<open>argparse.ArgumentTypeError(f'Cannot parse {arg!r} into a datetime object')\<close>.\<close>

definition ArgumentTypeError :: "pylib \<Rightarrow> string \<Rightarrow> exc" where
  "ArgumentTypeError lib arg =
     \<lparr>exc_class = ''ArgumentTypeError'',
      exc_msg = ''Cannot parse '' @ py_repr lib arg @ '' into a datetime object'',
      is_Exception = True\<rparr>"

text \<open>
  \<open>parse_datetime_arg\<close>. After the formats, \<open>int(arg)\<close> and \<open>fromtimestamp\<close> stand in one
  \<open>try\<close> whose \<open>except ValueError: pass\<close> leads to the final \<open>raise\<close>; an exception of
  another class leaves the function as it is.
\<close>

definition parse_datetime_arg :: "pylib \<Rightarrow> string \<Rightarrow> exc + datetime" where
  "parse_datetime_arg lib arg =
     (case try_formats lib arg formats of
        Some d \<Rightarrow> Inr d
      | None \<Rightarrow>
          (case py_int lib arg of
             None \<Rightarrow> Inl (ArgumentTypeError lib arg)
           | Some n \<Rightarrow>
               (case fromtimestamp_utc lib n of
                  Inr d \<Rightarrow> Inr d
                | Inl e \<Rightarrow>
                    if exc_class e = ''ValueError'' then Inl (ArgumentTypeError lib arg)
                    else Inl e)))"

text \<open>
  A sample library. \<open>strptime_table\<close> lists \<open>datetime.datetime.strptime\<close> at four strings,
  one for each format; it is \<open>None\<close> elsewhere, and is used below only at these strings
  and at strings that no format matches.
\<close>

definition strptime_table :: "string \<Rightarrow> string \<Rightarrow> datetime option" where
  "strptime_table arg fmt =
     map_of
       [((''2023-01-02 03:04:05 +0100'', ''%Y-%m-%d %H:%M:%S %z''),
           \<lparr>naive_seconds = 1672628645, tzinfo = Some 3600\<rparr>),
        ((''2023-01-02 03:04:05'', ''%Y-%m-%d %H:%M:%S''),
           \<lparr>naive_seconds = 1672628645, tzinfo = None\<rparr>),
        ((''2023-01-02 +0100'', ''%Y-%m-%d %z''),
           \<lparr>naive_seconds = 1672617600, tzinfo = Some 3600\<rparr>),
        ((''2023-01-02'', ''%Y-%m-%d''),
           \<lparr>naive_seconds = 1672617600, tzinfo = None\<rparr>)]
       (arg, fmt)"

text \<open>
  \<open>int\<close> on a string of ASCII characters: white space around, a sign, and decimal digits
  with single underscores between them.
\<close>

definition digit_val :: "char \<Rightarrow> int option" where
  "digit_val c =
     map_of [(CHR ''0'', 0), (CHR ''1'', 1), (CHR ''2'', 2), (CHR ''3'', 3), (CHR ''4'', 4),
             (CHR ''5'', 5), (CHR ''6'', 6), (CHR ''7'', 7), (CHR ''8'', 8), (CHR ''9'', 9)] c"

fun int_digits :: "string \<Rightarrow> bool \<Rightarrow> int \<Rightarrow> int option" where
  "int_digits [] after_digit acc = (if after_digit then Some acc else None)"
| "int_digits (c # cs) after_digit acc =
     (case digit_val c of
        Some v \<Rightarrow> int_digits cs True (10 * acc + v)
      | None \<Rightarrow>
          if c = CHR ''_'' \<and> after_digit \<and> cs \<noteq> [] then int_digits cs False acc
          else None)"

definition py_space :: "char \<Rightarrow> bool" where
  "py_space c = (c \<in> set [CHR '' '', CHR 9, CHR 10, CHR 11, CHR 12, CHR 13])"

definition strip :: "string \<Rightarrow> string" where
  "strip s = rev (dropWhile py_space (rev (dropWhile py_space s)))"

definition int_ascii :: "string \<Rightarrow> int option" where
  "int_ascii s =
     (case strip s of
        [] \<Rightarrow> None
      | c # cs \<Rightarrow>
          if c = CHR ''-'' then map_option uminus (int_digits cs False 0)
          else if c = CHR ''+'' then int_digits cs False 0
          else int_digits (c # cs) False 0)"

text \<open>
  \<open>fromtimestamp\<close> with \<open>timezone.utc\<close> in CPython on 64-bit Linux: \<open>OverflowError\<close>
  outside \<open>time_t\<close>, \<open>OSError\<close> where \<open>gmtime\<close> fails, \<open>ValueError\<close> for a year outside
  1 to 9999, the aware datetime otherwise. The messages are shortened.
\<close>

definition fromtimestamp_cpython :: "int \<Rightarrow> exc + datetime" where
  "fromtimestamp_cpython n =
     (if n < - (2 ^ 63) \<or> 2 ^ 63 \<le> n then
        Inl \<lparr>exc_class = ''OverflowError'',
             exc_msg = ''timestamp out of range for platform time_t'', is_Exception = True\<rparr>
      else if n < - 67768040609740800 \<or> 67768036191676799 < n then
        Inl \<lparr>exc_class = ''OSError'',
             exc_msg = ''Value too large for defined data type'', is_Exception = True\<rparr>
      else if n < - 62135596800 \<or> 253402300799 < n then
        Inl \<lparr>exc_class = ''ValueError'', exc_msg = ''year is out of range'',
             is_Exception = True\<rparr>
      else Inr \<lparr>naive_seconds = n, tzinfo = Some utc\<rparr>)"

text \<open>\<open>repr\<close> of a string of printable ASCII characters without quote or backslash.\<close>

definition repr_plain :: "string \<Rightarrow> string" where
  "repr_plain s = [CHR 39] @ s @ [CHR 39]"

definition sample_lib :: pylib where
  "sample_lib =
     \<lparr>strptime = strptime_table, py_int = int_ascii,
      fromtimestamp_utc = fromtimestamp_cpython, py_repr = repr_plain\<rparr>"


subsection \<open>Properties of the execution loop\<close>

lemma loop_run_items:
  assumes "\<forall>it \<in> set its. \<not> older_than_since a it"
    and "map (render sf a) its = map Inr lines"
    and "\<forall>k. i < k \<and> k \<le> i + length its \<longrightarrow> \<not> cap_reached a k"
  shows "loop sf a i (map Yield its @ rest) out = loop sf a (i + length its) rest (out @ lines)"
  using assms
proof (induction its arbitrary: i out lines)
  case Nil
  then show ?case by simp
next
  case (Cons it its)
  from Cons.prems(2) obtain l ls where lines: "lines = l # ls" and l: "render sf a it = Inr l"
    and ls: "map (render sf a) its = map Inr ls"
    by (cases lines) auto
  have nc: "\<not> cap_reached a (Suc i)" using Cons.prems(3) by simp
  have old: "\<not> older_than_since a it" using Cons.prems(1) by simp
  have rest': "\<forall>k. Suc i < k \<and> k \<le> Suc i + length its \<longrightarrow> \<not> cap_reached a k"
    using Cons.prems(3) by simp
  have "loop sf a (Suc i) (map Yield its @ rest) (out @ [l])
        = loop sf a (Suc i + length its) rest ((out @ [l]) @ ls)"
    using Cons.IH[OF _ ls rest'] Cons.prems(1) by simp
  then show ?case using nc old l lines by simp
qed

lemma loop_prefix: "\<exists>more. fst (loop sf a i pulls out) = out @ more"
proof (induction sf a i pulls out rule: loop.induct)
  case (3 sf a i it rest out)
  show ?case
  proof (cases "older_than_since a it")
    case True then show ?thesis by simp
  next
    case False
    show ?thesis
    proof (cases "render sf a it")
      case (Inl f) then show ?thesis using False by simp
    next
      case (Inr line)
      show ?thesis
      proof (cases "cap_reached a (Suc i)")
        case True then show ?thesis using False Inr by simp
      next
        case c: False
        from 3[OF False Inr c] obtain more where
          "fst (loop sf a (Suc i) rest (out @ [line])) = (out @ [line]) @ more" by blast
        then show ?thesis using False Inr c by simp
      qed
    qed
  qed
qed simp_all



text \<open>
  Claim C1. With \<open>since\<close> set, every pull of an item strictly older than \<open>since\<close> ends the
  loop at once with the normal ending \<open>Cutoff\<close> and prints nothing for that item; an item
  dated exactly \<open>since\<close> is printed (its line follows what was printed before). For a whole
  run: when the items before the first older one are all printed and the cap is not reached
  among them, the loop prints exactly their lines and ends with \<open>Cutoff\<close>.
\<close>

theorem since_cutoff:
  assumes "since a = Some s"
  shows "(date it < s \<longrightarrow> loop sf a i (Yield it # rest) out = (out, Cutoff))
       \<and> (date it = s \<and> render sf a it = Inr line \<longrightarrow>
            (\<exists>more e. loop sf a i (Yield it # rest) out = (out @ line # more, e)))
       \<and> (date it < s \<and> (\<forall>x \<in> set pre. s \<le> date x) \<and> map (render sf a) pre = map Inr lines
            \<and> (\<forall>k. 0 < k \<and> k \<le> length pre \<longrightarrow> \<not> cap_reached a k) \<longrightarrow>
            loop sf a 0 (map Yield pre @ Yield it # rest) [] = (lines, Cutoff))"
proof (intro conjI impI)
  assume "date it < s"
  then show "loop sf a i (Yield it # rest) out = (out, Cutoff)"
    using assms by (simp add: args_of_def older_than_since_def)
next
  assume h: "date it = s \<and> render sf a it = Inr line"
  then have old: "\<not> older_than_since a it" using assms by (simp add: args_of_def older_than_since_def)
  show "\<exists>more e. loop sf a i (Yield it # rest) out = (out @ line # more, e)"
  proof (cases "cap_reached a (Suc i)")
    case True
    then show ?thesis using old h by simp
  next
    case False
    obtain more where "fst (loop sf a (Suc i) rest (out @ [line])) = (out @ [line]) @ more"
      using loop_prefix by blast
    then have "loop sf a (Suc i) rest (out @ [line])
               = (out @ line # more, snd (loop sf a (Suc i) rest (out @ [line])))"
      by (cases "loop sf a (Suc i) rest (out @ [line])") simp
    then show ?thesis using old h False by auto
  qed
next
  assume h: "date it < s \<and> (\<forall>x \<in> set pre. s \<le> date x) \<and> map (render sf a) pre = map Inr lines
            \<and> (\<forall>k. 0 < k \<and> k \<le> length pre \<longrightarrow> \<not> cap_reached a k)"
  have 1: "\<forall>x \<in> set pre. \<not> older_than_since a x"
    using h assms by (auto simp: older_than_since_def)
  have 2: "\<forall>k. 0 < k \<and> k \<le> 0 + length pre \<longrightarrow> \<not> cap_reached a k" using h by simp
  have "loop sf a 0 (map Yield pre @ Yield it # rest) []
        = loop sf a (0 + length pre) (Yield it # rest) ([] @ lines)"
    using h by (intro loop_run_items[OF 1 _ 2]) simp
  also have "\<dots> = (lines, Cutoff)"
    using h assms by (simp add: args_of_def older_than_since_def)
  finally show "loop sf a 0 (map Yield pre @ Yield it # rest) [] = (lines, Cutoff)" .
qed

text \<open>The run of the specification: dates 5, 4, 3, 2, 1 and \<open>since = 3\<close>.\<close>

theorem since_cutoff_witness:
  "loop no_format (args_of None (Some 3)) 0
     (map Yield [item_dated 5 ''e'', item_dated 4 ''d'', item_dated 3 ''c'',
                 item_dated 2 ''b'', item_dated 1 ''a'']) []
   = ([''e'', ''d'', ''c''], Cutoff)"
proof -
  have s: "since (args_of None (Some 3)) = Some 3" by (simp add: args_of_def)
  show ?thesis
    using since_cutoff[OF s, where it = "item_dated 2 ''b''" and sf = no_format
        and pre = "[item_dated 5 ''e'', item_dated 4 ''d'', item_dated 3 ''c'']"
        and lines = "[''e'', ''d'', ''c'']" and rest = "[Yield (item_dated 1 ''a'')]"]
    by (simp add: args_of_def item_dated_def render_def cap_reached_def)
qed

text \<open>
  Claim C2. With \<open>maxResults = n > 0\<close>, when the first \<open>n\<close> pulls yield items that the age
  cutoff lets through and that render, the loop prints exactly these \<open>n\<close> lines and ends with
  \<open>Cap n\<close>, whatever follows in the sequence. The order of the two tests at one item: at an
  item where the cap would be reached, an older date still ends the loop with \<open>Cutoff\<close> and
  without its line; otherwise the line is printed first and the loop ends with \<open>Cap\<close>.
\<close>

theorem max_results_cap:
  assumes "maxResults a = Some m" and "0 < m" and "length its = nat m"
    and "\<forall>it \<in> set its. \<not> older_than_since a it"
    and "map (render sf a) its = map Inr lines"
  shows "loop sf a 0 (map Yield its @ rest) [] = (lines, Cap (nat m))
       \<and> (cap_reached a (Suc i) \<and> older_than_since a x \<longrightarrow>
            loop sf a i (Yield x # rest') out = (out, Cutoff))
       \<and> (cap_reached a (Suc i) \<and> \<not> older_than_since a x \<and> render sf a x = Inr line \<longrightarrow>
            loop sf a i (Yield x # rest') out = (out @ [line], Cap (Suc i)))"
proof (intro conjI impI)
  from assms(2,3) have ne: "its \<noteq> []" by auto
  then obtain pre z where its: "its = pre @ [z]" by (metis rev_exhaust)
  from assms(5) its obtain ls l where lines: "lines = ls @ [l]"
    and ls: "map (render sf a) pre = map Inr ls" and l: "render sf a z = Inr l"
    by (cases lines rule: rev_cases) auto
  have len: "Suc (length pre) = nat m" using assms(3) its by simp
  have 1: "\<forall>x \<in> set pre. \<not> older_than_since a x" using assms(4) its by simp
  have 2: "\<forall>k. 0 < k \<and> k \<le> 0 + length pre \<longrightarrow> \<not> cap_reached a k"
    using len assms(1) by (auto simp: cap_reached_def)
  have capn: "cap_reached a (Suc (length pre))"
    using len assms(1,2) by (auto simp: cap_reached_def)
  have "loop sf a 0 (map Yield its @ rest) []
        = loop sf a (0 + length pre) (Yield z # rest) ([] @ ls)"
    unfolding its using loop_run_items[OF 1 ls 2, of "Yield z # rest" "[]"] by simp
  also have "\<dots> = (ls @ [l], Cap (Suc (length pre)))"
    using assms(4) its l capn by simp
  finally show "loop sf a 0 (map Yield its @ rest) [] = (lines, Cap (nat m))"
    using lines len by simp
qed simp_all

text \<open>The run of the specification: \<open>maxResults = 2\<close>, no cutoff, three items.\<close>

theorem max_results_cap_witness:
  "loop no_format (args_of (Some 2) None) 0
     (map Yield [item_dated 5 ''e'', item_dated 4 ''d''] @ [Yield (item_dated 3 ''c'')]) []
   = ([''e'', ''d''], Cap (nat 2))"
proof -
  let ?a = "args_of (Some 2) None"
  let ?its = "[item_dated 5 ''e'', item_dated 4 ''d'']"
  have 1: "maxResults ?a = Some 2" by (simp add: args_of_def)
  have 2: "(0::int) < 2" by simp
  have 3: "length ?its = nat 2" by simp
  have 4: "\<forall>it \<in> set ?its. \<not> older_than_since ?a it" by (simp add: args_of_def older_than_since_def)
  have 5: "map (render no_format ?a) ?its = map Inr [''e'', ''d'']"
    by (simp add: args_of_def render_def item_dated_def)
  from max_results_cap[OF 1 2 3 4 5] show ?thesis by blast
qed

lemma loop_max_results_zero:
  "maxResults a = Some 0 \<Longrightarrow>
   loop sf a i pulls out = loop sf (a\<lparr>maxResults := None\<rparr>) i pulls out"
proof (induction sf a i pulls out rule: loop.induct)
  case (3 sf a i it rest out)
  have c: "\<not> cap_reached a (Suc i)" "\<not> cap_reached (a\<lparr>maxResults := None\<rparr>) (Suc i)"
    using 3(2) by (simp_all add: cap_reached_def)
  have o: "older_than_since (a\<lparr>maxResults := None\<rparr>) it = older_than_since a it"
    by (simp add: args_of_def older_than_since_def)
  have r: "render sf (a\<lparr>maxResults := None\<rparr>) it = render sf a it"
    by (simp add: render_def)
  show ?case
  proof (cases "older_than_since a it")
    case True then show ?thesis using o by simp
  next
    case False
    show ?thesis
    proof (cases "render sf a it")
      case (Inl f) then show ?thesis using False o r by simp
    next
      case (Inr line)
      from 3(1)[OF False Inr c(1) 3(2)] show ?thesis using False Inr o r c by simp
    qed
  qed
qed simp_all

text \<open>
  Claim C10 says that with a negative \<open>maxResults\<close> the loop renders the first item of any
  non-empty sequence and ends with a cap. The age cutoff is tested first: with
  \<open>maxResults = -3\<close>, \<open>since = 3\<close> and a first item dated 2, the loop ends with \<open>Cutoff\<close> and
  prints nothing.
\<close>

theorem negative_cap_cutoff_counterexample:
  "loop no_format (args_of (Some (- 3)) (Some 3)) 0
      [Yield (item_dated 2 ''b''), Yield (item_dated 1 ''a'')] []
   = ([], Cutoff)"
  by (simp add: args_of_def older_than_since_def item_dated_def)

text \<open>
  Claim C10, as the code has it. \<open>maxResults = 0\<close> is falsy in
  \<open>args.maxResults and i >= args.maxResults\<close>: the loop runs as with no cap, on every
  sequence. With a negative \<open>maxResults\<close> the test holds at \<open>i = 1\<close>: when the first pull
  yields an item that the age cutoff lets through and that renders, the loop prints its
  line and ends with \<open>Cap 1\<close>; when the first pull yields an item older than \<open>since\<close>, the
  loop ends with \<open>Cutoff\<close> and prints nothing.
\<close>

theorem max_results_zero_or_negative:
  "(maxResults a = Some 0 \<longrightarrow>
      loop sf a i pulls out = loop sf (a\<lparr>maxResults := None\<rparr>) i pulls out)
   \<and> (maxResults a = Some m \<and> m < 0 \<and> \<not> older_than_since a it \<and> render sf a it = Inr line \<longrightarrow>
      loop sf a 0 (Yield it # rest) [] = ([line], Cap 1))
   \<and> (maxResults a = Some m \<and> m < 0 \<and> older_than_since a it \<longrightarrow>
      loop sf a 0 (Yield it # rest) [] = ([], Cutoff))"
  by (auto simp: loop_max_results_zero cap_reached_def)

text \<open>
  \<open>maxResults = 0\<close> on two items; \<open>maxResults = -3\<close> on two items with no \<open>since\<close>, and
  with \<open>since = 3\<close> before an item dated 1.
\<close>

theorem max_results_zero_or_negative_witness:
  "loop no_format (args_of (Some 0) None) 0
      (map Yield [item_dated 5 ''e'', item_dated 4 ''d'']) []
     = ([''e'', ''d''], Done 2)
   \<and> loop no_format (args_of (Some (- 3)) None) 0
      (Yield (item_dated 5 ''e'') # [Yield (item_dated 4 ''d'')]) [] = ([''e''], Cap 1)
   \<and> loop no_format (args_of (Some (- 3)) (Some 3)) 0
      (Yield (item_dated 1 ''a'') # []) [] = ([], Cutoff)"
proof -
  let ?z = "args_of (Some 0) None"
  let ?n = "args_of (Some (- 3)) None"
  let ?c = "args_of (Some (- 3)) (Some 3)"
  let ?ps = "map Yield [item_dated 5 ''e'', item_dated 4 ''d'']"
  have m0: "maxResults ?z = Some 0" by (simp add: args_of_def)
  have "loop no_format ?z 0 ?ps [] = loop no_format (?z\<lparr>maxResults := None\<rparr>) 0 ?ps []"
    using max_results_zero_or_negative[where a = ?z and sf = no_format and i = 0
        and pulls = ?ps and out = "[]"] m0
    by blast
  also have "\<dots> = ([''e'', ''d''], Done 2)"
    by (simp add: args_of_def older_than_since_def render_def item_dated_def cap_reached_def)
  finally have z: "loop no_format ?z 0 ?ps [] = ([''e'', ''d''], Done 2)" .
  have hn: "maxResults ?n = Some (- 3) \<and> (- 3 :: int) < 0
            \<and> \<not> older_than_since ?n (item_dated 5 ''e'')
            \<and> render no_format ?n (item_dated 5 ''e'') = Inr ''e''"
    by (simp add: args_of_def older_than_since_def render_def item_dated_def)
  have n: "loop no_format ?n 0 (Yield (item_dated 5 ''e'') # [Yield (item_dated 4 ''d'')]) []
           = ([''e''], Cap 1)"
    using max_results_zero_or_negative[where a = ?n and m = "- 3" and it = "item_dated 5 ''e''"
        and sf = no_format and line = "''e''" and rest = "[Yield (item_dated 4 ''d'')]"] hn
    by blast
  have hc: "maxResults ?c = Some (- 3) \<and> (- 3 :: int) < 0
            \<and> older_than_since ?c (item_dated 1 ''a'')"
    by (simp add: args_of_def older_than_since_def item_dated_def)
  have c: "loop no_format ?c 0 (Yield (item_dated 1 ''a'') # []) [] = ([], Cutoff)"
    using max_results_zero_or_negative[where a = ?c and m = "- 3" and it = "item_dated 1 ''a''"
        and sf = no_format and rest = "[]"] hc
    by blast
  from z n c show ?thesis by simp
qed

subsection \<open>Properties of the crash diagnostics\<close>

lemma dump_frames_known:
  "\<forall>fr \<in> set frs. frame_module fr \<noteq> None \<Longrightarrow>
   dump_frames frs written
     = (written @ concat (map frame_writes (filter in_snscrape frs)), None)"
  by (induction frs arbitrary: written) (auto simp: in_snscrape_def)

lemma dump_frames_unknown:
  "\<exists>fr \<in> set frs. frame_module fr = None \<Longrightarrow> snd (dump_frames frs written) = Some AttributeError"
  by (induction frs arbitrary: written) (auto split: option.splits)

lemma locals_in_frame_writes: "locals_repr fr \<in> set (frame_writes fr)"
  by (simp add: frame_writes_def)

text \<open>
  Where the diagnostics do what the specification asks. A failure whose trace has fewer
  than 3 frames leaves no file and no log, and is raised again as it is. An \<open>Exception\<close>
  whose trace has 3 frames or more, each frame from the third on with a module that
  \<open>inspect.getmodule\<close> finds, leaves exactly one file, named by \<open>tempfile\<close> with the prefix
  \<open>snscrape_locals_\<close>, holding the locals of every such frame that belongs to \<open>snscrape\<close>,
  and is raised again as it is.
\<close>

theorem dump_locals_shallow_and_deep:
  "(length trace < 3 \<longrightarrow>
      dump_locals_on_exception tn (e, trace) = \<lparr>files = [], fatal = [], raised = e\<rparr>)
   \<and> (is_Exception e \<and> 3 \<le> length trace \<and> (\<forall>fr \<in> set (drop 2 trace). frame_module fr \<noteq> None) \<longrightarrow>
        (\<exists>written.
           dump_locals_on_exception tn (e, trace)
             = \<lparr>files = [(tn ''snscrape_locals_'', written)],
                fatal = [''Local variables logged to '' @ tn ''snscrape_locals_''],
                raised = e\<rparr>
           \<and> (\<forall>fr \<in> set (drop 2 trace). in_snscrape fr \<longrightarrow> locals_repr fr \<in> set written)))"
proof (intro conjI impI)
  assume "length trace < 3"
  then show "dump_locals_on_exception tn (e, trace) = \<lparr>files = [], fatal = [], raised = e\<rparr>"
    by (simp add: dump_locals_on_exception_def)
next
  assume h: "is_Exception e \<and> 3 \<le> length trace
             \<and> (\<forall>fr \<in> set (drop 2 trace). frame_module fr \<noteq> None)"
  let ?w = "concat (map frame_writes (filter in_snscrape (drop 2 trace)))"
  have d: "dump_frames (drop 2 trace) [] = (?w, None)"
    using h dump_frames_known[of "drop 2 trace" "[]"] by simp
  have "dump_locals_on_exception tn (e, trace)
          = \<lparr>files = [(tn ''snscrape_locals_'', ?w)],
             fatal = [''Local variables logged to '' @ tn ''snscrape_locals_''],
             raised = e\<rparr>"
    using h d by (simp add: dump_locals_on_exception_def Let_def)
  moreover have "\<forall>fr \<in> set (drop 2 trace). in_snscrape fr \<longrightarrow> locals_repr fr \<in> set ?w"
    using locals_in_frame_writes by auto
  ultimately show "\<exists>written.
           dump_locals_on_exception tn (e, trace)
             = \<lparr>files = [(tn ''snscrape_locals_'', written)],
                fatal = [''Local variables logged to '' @ tn ''snscrape_locals_''],
                raised = e\<rparr>
           \<and> (\<forall>fr \<in> set (drop 2 trace). in_snscrape fr \<longrightarrow> locals_repr fr \<in> set written)"
    by blast
qed

text \<open>
  A trace of two frames, and a trace of four with a frame of a scraper module and a frame
  of the \<open>requests\<close> library below \<open>main\<close>.
\<close>

theorem dump_locals_shallow_and_deep_witness:
  "dump_locals_on_exception tempname_tmp
      (ConnectionError,
       [frame_of (Some ''snscrape.cli'') ''cli.py'' 17 ''_dump_locals_on_exception'' ''{}'',
        frame_of (Some ''snscrape.cli'') ''cli.py'' 111 ''main'' ''{i: 0}''])
     = \<lparr>files = [], fatal = [], raised = ConnectionError\<rparr>
   \<and> (\<exists>written.
         dump_locals_on_exception tempname_tmp
           (ConnectionError,
            [frame_of (Some ''snscrape.cli'') ''cli.py'' 17 ''_dump_locals_on_exception'' ''{}'',
             frame_of (Some ''snscrape.cli'') ''cli.py'' 111 ''main'' ''{i: 0}'',
             frame_of (Some ''snscrape.modules.twitter'') ''twitter.py'' 52 ''get_items'' ''{page: 3}'',
             frame_of (Some ''requests.sessions'') ''sessions.py'' 530 ''request'' ''{url: u}''])
           = \<lparr>files = [(''/tmp/snscrape_locals_k3x9f2ab'', written)],
              fatal = [''Local variables logged to /tmp/snscrape_locals_k3x9f2ab''],
              raised = ConnectionError\<rparr>
         \<and> ''{page: 3}'' \<in> set written)"
proof -
  let ?w = "frame_of (Some ''snscrape.cli'') ''cli.py'' 17 ''_dump_locals_on_exception'' ''{}''"
  let ?m = "frame_of (Some ''snscrape.cli'') ''cli.py'' 111 ''main'' ''{i: 0}''"
  let ?g = "frame_of (Some ''snscrape.modules.twitter'') ''twitter.py'' 52 ''get_items'' ''{page: 3}''"
  let ?r = "frame_of (Some ''requests.sessions'') ''sessions.py'' 530 ''request'' ''{url: u}''"
  have a: "dump_locals_on_exception tempname_tmp (ConnectionError, [?w, ?m])
           = \<lparr>files = [], fatal = [], raised = ConnectionError\<rparr>"
    using dump_locals_shallow_and_deep[of "[?w, ?m]" tempname_tmp ConnectionError] by simp
  have "is_Exception ConnectionError \<and> 3 \<le> length [?w, ?m, ?g, ?r]
        \<and> (\<forall>fr \<in> set (drop 2 [?w, ?m, ?g, ?r]). frame_module fr \<noteq> None)"
    by (simp add: ConnectionError_def frame_of_def)
  with dump_locals_shallow_and_deep[of "[?w, ?m, ?g, ?r]" tempname_tmp ConnectionError]
  obtain written where
    w: "dump_locals_on_exception tempname_tmp (ConnectionError, [?w, ?m, ?g, ?r])
          = \<lparr>files = [(tempname_tmp ''snscrape_locals_'', written)],
             fatal = [''Local variables logged to '' @ tempname_tmp ''snscrape_locals_''],
             raised = ConnectionError\<rparr>"
    and l: "\<forall>fr \<in> set (drop 2 [?w, ?m, ?g, ?r]). in_snscrape fr \<longrightarrow> locals_repr fr \<in> set written"
    by blast
  have "in_snscrape ?g" by (simp add: in_snscrape_def frame_of_def foreign_module_def)
  with l have "''{page: 3}'' \<in> set written" by (auto simp: frame_of_def)
  with a w show ?thesis by (auto simp: tempname_tmp_def)
qed

lemma dump_frames_stops:
  "\<forall>fr \<in> set known. frame_module fr \<noteq> None \<Longrightarrow> frame_module unknown = None \<Longrightarrow>
   dump_frames (known @ unknown # rest) written
     = (written @ concat (map frame_writes (filter in_snscrape known)), Some AttributeError)"
  by (induction known arbitrary: written) (auto simp: in_snscrape_def)

text \<open>
  Claim C3 says that a failure 3 or more frames deep inside the components of \<open>snscrape\<close>
  leaves one file with the locals of at least one frame and is raised again unchanged. The
  code does not do so when a frame from the third on has no module: the loop over the
  frames stops there with \<open>AttributeError\<close>. The file holds what the frames before that one
  gave and nothing of the frames after it, nothing is logged, and \<open>AttributeError\<close> leaves
  the \<open>with\<close> statement in place of the failure.
\<close>

theorem dump_locals_stops_at_unknown_module:
  "is_Exception e \<and> drop 2 trace = known @ unknown # rest
   \<and> (\<forall>fr \<in> set known. frame_module fr \<noteq> None) \<and> frame_module unknown = None \<longrightarrow>
     dump_locals_on_exception tn (e, trace)
       = \<lparr>files = [(tn ''snscrape_locals_'', concat (map frame_writes (filter in_snscrape known)))],
          fatal = [],
          raised = AttributeError\<rparr>"
proof
  assume h: "is_Exception e \<and> drop 2 trace = known @ unknown # rest
   \<and> (\<forall>fr \<in> set known. frame_module fr \<noteq> None) \<and> frame_module unknown = None"
  then have "length (drop 2 trace) \<ge> 1" by simp
  then have l: "3 \<le> length trace" by simp
  have "dump_frames (drop 2 trace) []
        = ([] @ concat (map frame_writes (filter in_snscrape known)), Some AttributeError)"
    using h dump_frames_stops[of known unknown rest "[]"] by simp
  then show "dump_locals_on_exception tn (e, trace)
       = \<lparr>files = [(tn ''snscrape_locals_'', concat (map frame_writes (filter in_snscrape known)))],
          fatal = [],
          raised = AttributeError\<rparr>"
    using h l by (simp add: dump_locals_on_exception_def Let_def)
qed

text \<open>
  A failure raised in a scraper module, four frames deep, below the \<open>__init__\<close> that was
  compiled from a string: the file is created and stays empty, so it holds the locals of
  no frame, and \<open>AttributeError\<close> replaces the failure.
\<close>

theorem dump_locals_stops_at_unknown_module_witness:
  "dump_locals_on_exception tempname_tmp
      (ConnectionError,
       [frame_of (Some ''snscrape.cli'') ''cli.py'' 17 ''_dump_locals_on_exception'' ''{}'',
        frame_of (Some ''snscrape.cli'') ''cli.py'' 111 ''main'' ''{i: 0}'',
        frame_of None ''<string>'' 3 ''__init__'' ''{self: s}'',
        frame_of (Some ''snscrape.modules.twitter'') ''twitter.py'' 52 ''__post_init__'' ''{page: 3}''])
     = \<lparr>files = [(''/tmp/snscrape_locals_k3x9f2ab'', [])], fatal = [], raised = AttributeError\<rparr>
   \<and> AttributeError \<noteq> ConnectionError"
proof -
  let ?w = "frame_of (Some ''snscrape.cli'') ''cli.py'' 17 ''_dump_locals_on_exception'' ''{}''"
  let ?m = "frame_of (Some ''snscrape.cli'') ''cli.py'' 111 ''main'' ''{i: 0}''"
  let ?u = "frame_of None ''<string>'' 3 ''__init__'' ''{self: s}''"
  let ?g = "frame_of (Some ''snscrape.modules.twitter'') ''twitter.py'' 52 ''__post_init__'' ''{page: 3}''"
  have h: "is_Exception ConnectionError \<and> drop 2 [?w, ?m, ?u, ?g] = [] @ ?u # [?g]
           \<and> (\<forall>fr \<in> set []. frame_module fr \<noteq> None) \<and> frame_module ?u = None"
    by (simp add: ConnectionError_def frame_of_def)
  have "dump_locals_on_exception tempname_tmp (ConnectionError, [?w, ?m, ?u, ?g])
        = \<lparr>files = [(tempname_tmp ''snscrape_locals_'',
                     concat (map frame_writes (filter in_snscrape [])))],
           fatal = [], raised = AttributeError\<rparr>"
    using dump_locals_stops_at_unknown_module[where e = ConnectionError
        and trace = "[?w, ?m, ?u, ?g]" and known = "[]" and unknown = ?u and rest = "[?g]"
        and tn = tempname_tmp] h
    by blast
  moreover have "AttributeError \<noteq> ConnectionError"
    by (simp add: AttributeError_def ConnectionError_def)
  ultimately show ?thesis by (simp add: tempname_tmp_def)
qed

text \<open>
  Claim C9 says that the walk over the frames never raises, also for a frame whose module
  cannot be determined. The code reads \<open>module.__name__\<close> with no test for \<open>None\<close>: when a
  frame from the third on has no module, the walk ends with \<open>AttributeError\<close>, which leaves
  the \<open>with\<close> statement in place of the original exception, and nothing is logged.
\<close>

theorem dump_locals_unknown_module:
  "is_Exception e \<and> 3 \<le> length trace \<and> (\<exists>fr \<in> set (drop 2 trace). frame_module fr = None) \<longrightarrow>
     raised (dump_locals_on_exception tn (e, trace)) = AttributeError
     \<and> fatal (dump_locals_on_exception tn (e, trace)) = []"
proof
  assume h: "is_Exception e \<and> 3 \<le> length trace \<and> (\<exists>fr \<in> set (drop 2 trace). frame_module fr = None)"
  then have "snd (dump_frames (drop 2 trace) []) = Some AttributeError"
    using dump_frames_unknown by blast
  then obtain w where "dump_frames (drop 2 trace) [] = (w, Some AttributeError)"
    by (cases "dump_frames (drop 2 trace) []") simp
  then show "raised (dump_locals_on_exception tn (e, trace)) = AttributeError
     \<and> fatal (dump_locals_on_exception tn (e, trace)) = []"
    using h by (simp add: dump_locals_on_exception_def Let_def)
qed

text \<open>
  A trace whose third frame runs code compiled from a string (file \<open><string>\<close>): the file
  is created and stays empty, and \<open>AttributeError\<close> replaces the exception of the scraper.
\<close>

theorem dump_locals_unknown_module_witness:
  "dump_locals_on_exception tempname_tmp
      (ConnectionError,
       [frame_of (Some ''snscrape.cli'') ''cli.py'' 17 ''_dump_locals_on_exception'' ''{}'',
        frame_of (Some ''snscrape.cli'') ''cli.py'' 111 ''main'' ''{i: 0}'',
        frame_of None ''<string>'' 1 ''_asdict'' ''{}''])
     = \<lparr>files = [(''/tmp/snscrape_locals_k3x9f2ab'', [])], fatal = [], raised = AttributeError\<rparr>
   \<and> AttributeError \<noteq> ConnectionError"
proof -
  let ?t = "[frame_of (Some ''snscrape.cli'') ''cli.py'' 17 ''_dump_locals_on_exception'' ''{}'',
        frame_of (Some ''snscrape.cli'') ''cli.py'' 111 ''main'' ''{i: 0}'',
        frame_of None ''<string>'' 1 ''_asdict'' ''{}'']"
  have "is_Exception ConnectionError \<and> 3 \<le> length ?t
        \<and> (\<exists>fr \<in> set (drop 2 ?t). frame_module fr = None)"
    by (simp add: ConnectionError_def frame_of_def)
  with dump_locals_unknown_module[of ConnectionError ?t tempname_tmp]
  have r: "raised (dump_locals_on_exception tempname_tmp (ConnectionError, ?t)) = AttributeError"
    and f: "fatal (dump_locals_on_exception tempname_tmp (ConnectionError, ?t)) = []"
    by blast+
  have "files (dump_locals_on_exception tempname_tmp (ConnectionError, ?t))
        = [(''/tmp/snscrape_locals_k3x9f2ab'', [])]"
    by (simp add: dump_locals_on_exception_def ConnectionError_def frame_of_def tempname_tmp_def)
  with r f have "dump_locals_on_exception tempname_tmp (ConnectionError, ?t)
     = \<lparr>files = [(''/tmp/snscrape_locals_k3x9f2ab'', [])], fatal = [], raised = AttributeError\<rparr>"
    by (cases "dump_locals_on_exception tempname_tmp (ConnectionError, ?t)") simp
  moreover have "AttributeError \<noteq> ConnectionError"
    by (simp add: AttributeError_def ConnectionError_def)
  ultimately show ?thesis by simp
qed

subsection \<open>Properties of the registration\<close>

lemma named_Nil: "named [] = []"
  by (simp add: named_def List.map_filter_simps)

lemma named_Cons:
  "named (c # cs) = (case name c of None \<Rightarrow> named cs | Some n \<Rightarrow> (n, c) # named cs)"
  by (simp add: named_def List.map_filter_simps split: option.splits)

lemma register_loop_traversal:
  "i \<le> length classes \<Longrightarrow>
   register_loop ap classes i sp
     = (case register_all ap (named (traversal (drop i classes))) sp of
          Inl e \<Rightarrow> Inl e
        | Inr sp' \<Rightarrow> Inr (take i classes @ traversal (drop i classes), sp'))"
proof (induction ap classes i sp rule: register_loop.induct)
  case (1 ap classes i sp)
  note u = register_loop.simps[of ap classes i sp]
  show ?case
  proof (cases "i < length classes")
    case False
    with 1(2) have "i = length classes" by simp
    then show ?thesis using u by (simp add: named_def List.map_filter_simps)
  next
    case True
    let ?c = "classes ! i"
    have d: "drop i classes = ?c # drop (Suc i) classes"
      using True by (simp add: Cons_nth_drop_Suc)
    have d': "drop (Suc i) (classes @ subclasses ?c) = drop (Suc i) classes @ subclasses ?c"
      using True by simp
    have t': "take (Suc i) (classes @ subclasses ?c) = take i classes @ [?c]"
      using True by (simp add: take_Suc_conv_app_nth)
    have tr: "traversal (drop i classes) = ?c # traversal (drop (Suc i) classes @ subclasses ?c)"
      using d by simp
    have lhs: "register_loop ap classes i sp
               = (case register_cls ap ?c sp of
                    Inl e \<Rightarrow> Inl e
                  | Inr sp' \<Rightarrow> register_loop ap (classes @ subclasses ?c) (Suc i) sp')"
      using True u by simp
    have reg: "register_all ap (named (?c # traversal (drop (Suc i) classes @ subclasses ?c))) sp
               = (case register_cls ap ?c sp of
                    Inl e \<Rightarrow> Inl e
                  | Inr sp' \<Rightarrow>
                      register_all ap (named (traversal (drop (Suc i) classes @ subclasses ?c))) sp')"
      by (cases "name ?c") (simp_all add: named_Cons register_cls_def)
    show ?thesis
    proof (cases "register_cls ap ?c sp")
      case (Inl e)
      then show ?thesis unfolding lhs tr reg by simp
    next
      case (Inr sp')
      have le: "Suc i \<le> length (classes @ subclasses ?c)" using True by simp
      have "register_loop ap (classes @ subclasses ?c) (Suc i) sp'
            = (case register_all ap (named (traversal (drop (Suc i) classes @ subclasses ?c))) sp' of
                 Inl e \<Rightarrow> Inl e
               | Inr s \<Rightarrow>
                   Inr ((take i classes @ [?c]) @ traversal (drop (Suc i) classes @ subclasses ?c), s))"
        using 1(1)[OF True Inr le] unfolding d' t' .
      then show ?thesis unfolding lhs tr reg using Inr by (simp split: sum.splits)
    qed
  qed
qed

lemma set_traversal: "set (traversal queue) = (\<Union>c \<in> set queue. insert c (descendants c))"
proof (induction queue rule: traversal.induct)
  case 1
  then show ?case by simp
next
  case (2 c queue)
  have "descendants c = (\<Union>s \<in> set (subclasses c). insert s (descendants s))"
    by (cases c) simp
  with 2 show ?case by auto
qed

lemma named_iff: "(n, c) \<in> set (named cs) \<longleftrightarrow> c \<in> set cs \<and> name c = Some n"
  by (induction cs) (auto simp: named_Cons named_def List.map_filter_simps split: option.splits)

lemma descendants_subclasses:
  "descendants c = (\<Union>s \<in> set (subclasses c). insert s (descendants s))"
  by (cases c) simp

lemma register_all_store:
  "\<exists>sp'. register_all add_parser_store xs sp = Inr sp' \<and> map_of sp' = map_of sp ++ map_of (rev xs)"
proof (induction xs arbitrary: sp)
  case Nil
  then show ?case by simp
next
  case (Cons x xs)
  obtain n c where x: "x = (n, c)" by (cases x)
  from Cons[of "AList.update n c sp"] obtain sp' where
    r: "register_all add_parser_store xs (AList.update n c sp) = Inr sp'"
    and m: "map_of sp' = map_of (AList.update n c sp) ++ map_of (rev xs)" by blast
  have "map_of (AList.update n c sp) ++ map_of (rev xs) = map_of sp ++ map_of (rev (x # xs))"
    by (rule ext) (simp add: x update_conv' map_add_def split: option.splits)
  moreover have "add_parser_store sp n c = Inr (AList.update n c sp)"
    by (simp add: add_parser_store_def)
  ultimately show ?case using r m by (simp add: x)
qed

lemma fst_named: "fst ` set (named cs) = {n. \<exists>c \<in> set cs. name c = Some n}"
proof (intro set_eqI iffI)
  fix n assume "n \<in> fst ` set (named cs)"
  then obtain c where "(n, c) \<in> set (named cs)" by auto
  then show "n \<in> {n. \<exists>c \<in> set cs. name c = Some n}" by (auto simp: named_iff)
next
  fix n assume "n \<in> {n. \<exists>c \<in> set cs. name c = Some n}"
  then obtain c where "c \<in> set cs" "name c = Some n" by auto
  then have "(n, c) \<in> set (named cs)" by (simp add: named_iff)
  then show "n \<in> fst ` set (named cs)" by force
qed


text \<open>
  Claim C6, as the code has it. Whatever \<open>add_parser\<close> does, the loop visits the classes
  in the order of the traversal, which holds every class that derives from the base through
  any number of levels, and it calls \<open>add_parser\<close> for a visited class exactly when its
  \<open>name\<close> is not \<open>None\<close>, in that order, up to the first call that raises, which ends the
  registration. With the \<open>add_parser\<close> that stores, no call raises: every class below the
  base is visited, and the names of the subcommands are, besides those present before, the
  names of the classes below the base whose \<open>name\<close> is not \<open>None\<close>. A class without name is
  visited, and the classes below it are registered.
\<close>

theorem registration_traversal:
  "register_loop ap (subclasses base) 0 sp
     = (case register_all ap (named (traversal (subclasses base))) sp of
          Inl e \<Rightarrow> Inl e
        | Inr sp' \<Rightarrow> Inr (traversal (subclasses base), sp'))
   \<and> set (traversal (subclasses base)) = descendants base
   \<and> ((n, c) \<in> set (named (traversal (subclasses base)))
        \<longleftrightarrow> c \<in> descendants base \<and> name c = Some n)
   \<and> (\<exists>sp'. register_loop add_parser_store (subclasses base) 0 sp
              = Inr (traversal (subclasses base), sp')
            \<and> dom (map_of sp') = dom (map_of sp) \<union> {n. \<exists>c \<in> descendants base. name c = Some n})"
proof -
  have 1: "\<And>ap. register_loop ap (subclasses base) 0 sp
     = (case register_all ap (named (traversal (subclasses base))) sp of
          Inl e \<Rightarrow> Inl e
        | Inr sp' \<Rightarrow> Inr (traversal (subclasses base), sp'))"
    using register_loop_traversal[of 0 "subclasses base" _ sp] by (simp split: sum.splits)
  have 2: "set (traversal (subclasses base)) = descendants base"
    unfolding set_traversal descendants_subclasses[of base] ..
  obtain sp' where r: "register_all add_parser_store (named (traversal (subclasses base))) sp = Inr sp'"
    and m: "map_of sp' = map_of sp ++ map_of (rev (named (traversal (subclasses base))))"
    using register_all_store by blast
  have "dom (map_of sp') = dom (map_of sp) \<union> fst ` set (named (traversal (subclasses base)))"
    unfolding m by (auto simp: dom_map_of_conv_image_fst)
  then have d: "dom (map_of sp') = dom (map_of sp) \<union> {n. \<exists>c \<in> descendants base. name c = Some n}"
    unfolding fst_named 2 .
  have 4: "\<exists>sp'. register_loop add_parser_store (subclasses base) 0 sp
              = Inr (traversal (subclasses base), sp')
            \<and> dom (map_of sp') = dom (map_of sp) \<union> {n. \<exists>c \<in> descendants base. name c = Some n}"
    using 1[of add_parser_store] r d by simp
  show ?thesis using 1 2 4 by (simp add: named_iff)
qed

text \<open>
  The sample hierarchy: \<open>TwitterCommon\<close> has no name and no subcommand, the classes below
  it have one.
\<close>

theorem registration_traversal_witness:
  "register_loop add_parser_store (subclasses Scraper_sample) 0 []
     = Inr ([Cls ''TwitterCommon'' None
               [Cls ''TwitterUserScraper'' (Some ''twitter-user'') [],
                Cls ''TwitterSearchScraper'' (Some ''twitter-search'')
                  [Cls ''TwitterHashtagScraper'' (Some ''twitter-hashtag'') []]],
             Cls ''GabScraper'' (Some ''gab'') [],
             Cls ''TwitterUserScraper'' (Some ''twitter-user'') [],
             Cls ''TwitterSearchScraper'' (Some ''twitter-search'')
               [Cls ''TwitterHashtagScraper'' (Some ''twitter-hashtag'') []],
             Cls ''TwitterHashtagScraper'' (Some ''twitter-hashtag'') []],
            [(''gab'', Cls ''GabScraper'' (Some ''gab'') []),
             (''twitter-user'', Cls ''TwitterUserScraper'' (Some ''twitter-user'') []),
             (''twitter-search'', Cls ''TwitterSearchScraper'' (Some ''twitter-search'')
                [Cls ''TwitterHashtagScraper'' (Some ''twitter-hashtag'') []]),
             (''twitter-hashtag'', Cls ''TwitterHashtagScraper'' (Some ''twitter-hashtag'') [])])"
  using registration_traversal[THEN conjunct1, of add_parser_store Scraper_sample "[]"]
  by (simp add: Scraper_sample_def named_Cons named_Nil add_parser_store_def)

text \<open>
  The test of the code is \<open>cls.name is not None\<close>, not that the name is non-empty: a class
  whose \<open>name\<close> is the empty string gets a subcommand, under the empty name.
\<close>

theorem empty_name_registered_counterexample:
  "register_loop add_parser_store
      (subclasses (Cls ''Scraper'' None [Cls ''DraftScraper'' (Some []) []])) 0 []
     = Inr ([Cls ''DraftScraper'' (Some []) []], [([], Cls ''DraftScraper'' (Some []) [])])
   \<and> name (Cls ''DraftScraper'' (Some []) []) = Some []"
  by (simp add: register_loop.simps register_cls_def add_parser_store_def)

lemma register_all_checked:
  "\<not> distinct (map fst xs) \<or> (\<exists>n \<in> fst ` set xs. n \<in> fst ` set sp) \<Longrightarrow>
   \<exists>n. register_all add_parser_checked xs sp = Inl (conflicting_subparser n)"
proof (induction xs arbitrary: sp)
  case Nil
  then show ?case by simp
next
  case (Cons x xs)
  obtain n c where x: "x = (n, c)" by (cases x)
  show ?case
  proof (cases "n \<in> fst ` set sp")
    case True
    then show ?thesis by (auto simp: x add_parser_checked_def)
  next
    case False
    have keys: "fst ` set (AList.update n c sp) = insert n (fst ` set sp)"
      by (simp add: dom_update)
    have "\<not> distinct (map fst xs) \<or> (\<exists>m \<in> fst ` set xs. m \<in> fst ` set (AList.update n c sp))"
      using Cons.prems False unfolding keys x by auto
    from Cons.IH[OF this] obtain m where
      "register_all add_parser_checked xs (AList.update n c sp) = Inl (conflicting_subparser m)"
      by blast
    moreover have "add_parser_checked sp n c = Inr (AList.update n c sp)"
      using False by (simp add: add_parser_checked_def)
    ultimately show ?thesis by (auto simp: x)
  qed
qed

text \<open>
  Claim C7, as the code has it. \<open>parse_args\<close> has no test of its own for a name that two
  classes share; what happens is what \<open>add_parser\<close> does. With the \<open>add_parser\<close> that
  stores, registration never raises and each name selects the class registered last
  under it. With the \<open>add_parser\<close> that tests the name, registration raises
  \<open>ArgumentError\<close> when two registrations share a name.
\<close>

theorem shared_name_left_to_add_parser:
  "(\<exists>sp'. register_loop add_parser_store (subclasses base) 0 []
            = Inr (traversal (subclasses base), sp')
          \<and> map_of sp' = map_of (rev (named (traversal (subclasses base)))))
   \<and> (\<not> distinct (map fst (named (traversal (subclasses base)))) \<longrightarrow>
        (\<exists>n. register_loop add_parser_checked (subclasses base) 0 []
               = Inl (conflicting_subparser n)))"
proof (intro conjI impI)
  obtain sp' where "register_all add_parser_store (named (traversal (subclasses base))) [] = Inr sp'"
    and "map_of sp' = map_of [] ++ map_of (rev (named (traversal (subclasses base))))"
    using register_all_store by blast
  then show "\<exists>sp'. register_loop add_parser_store (subclasses base) 0 []
            = Inr (traversal (subclasses base), sp')
          \<and> map_of sp' = map_of (rev (named (traversal (subclasses base))))"
    using register_loop_traversal[of 0 "subclasses base" add_parser_store "[]"] by simp
next
  assume "\<not> distinct (map fst (named (traversal (subclasses base))))"
  then obtain n where
    "register_all add_parser_checked (named (traversal (subclasses base))) []
     = Inl (conflicting_subparser n)"
    using register_all_checked by blast
  then show "\<exists>n. register_loop add_parser_checked (subclasses base) 0 []
               = Inl (conflicting_subparser n)"
    using register_loop_traversal[of 0 "subclasses base" add_parser_checked "[]"] by auto
qed

text \<open>
  Two different classes named \<open>channel\<close>: with the \<open>add_parser\<close> that stores, no error is
  raised and the dictionary holds the second class alone.
\<close>

theorem shared_name_shadows_counterexample:
  "register_loop add_parser_store (subclasses Scraper_shared) 0 []
     = Inr ([Cls ''TelegramScraper'' (Some ''channel'') [],
             Cls ''VKontakteScraper'' (Some ''channel'') []],
            [(''channel'', Cls ''VKontakteScraper'' (Some ''channel'') [])])
   \<and> Cls ''TelegramScraper'' (Some ''channel'') [] \<noteq> Cls ''VKontakteScraper'' (Some ''channel'') []"
  by (simp add: Scraper_shared_def register_loop.simps register_cls_def add_parser_store_def)

text \<open>The same hierarchy under both \<open>add_parser\<close>.\<close>

theorem shared_name_left_to_add_parser_witness:
  "(\<exists>sp'. register_loop add_parser_store (subclasses Scraper_shared) 0 []
            = Inr ([Cls ''TelegramScraper'' (Some ''channel'') [],
                    Cls ''VKontakteScraper'' (Some ''channel'') []], sp')
          \<and> map_of sp' ''channel'' = Some (Cls ''VKontakteScraper'' (Some ''channel'') []))
   \<and> (\<exists>n. register_loop add_parser_checked (subclasses Scraper_shared) 0 []
             = Inl (conflicting_subparser n))"
proof -
  have t: "traversal (subclasses Scraper_shared)
           = [Cls ''TelegramScraper'' (Some ''channel'') [],
              Cls ''VKontakteScraper'' (Some ''channel'') []]"
    by (simp add: Scraper_shared_def)
  have d: "\<not> distinct (map fst (named (traversal (subclasses Scraper_shared))))"
    unfolding t by (simp add: named_Cons named_Nil)
  from shared_name_left_to_add_parser[of Scraper_shared] d
  obtain sp' n where
    "register_loop add_parser_store (subclasses Scraper_shared) 0 []
       = Inr (traversal (subclasses Scraper_shared), sp')"
    and "map_of sp' = map_of (rev (named (traversal (subclasses Scraper_shared))))"
    and "register_loop add_parser_checked (subclasses Scraper_shared) 0 []
           = Inl (conflicting_subparser n)"
    by blast
  then show ?thesis
    unfolding t by (auto simp: named_Cons named_Nil)
qed

subsection \<open>Properties of \<open>parse_args\<close> and \<open>main\<close>\<close>

text \<open>
  Claim C8. When the registration succeeds and \<open>parser.parse_args()\<close> returns a namespace
  with no subcommand (\<open>args.scraper\<close> is \<open>None\<close>), \<open>parse_args\<close> raises the
  \<open>RuntimeError\<close> "Error: no scraper specified", and \<open>main\<close> ends with it: no scraper has
  been constructed, nothing is printed, the loop has not run.
\<close>

theorem no_scraper_selected:
  "register_loop ap (subclasses Scraper) 0 [] = Inr (classes, sp)
   \<and> parse_argv sp argv = Inr a \<and> scraper a = None \<longrightarrow>
   parse_args ap parse_argv Scraper argv = Inl no_scraper_specified
   \<and> main ap parse_argv from_args str_format tempname Scraper argv
       = \<lparr>constructed = [], printed = [], ended = None, dumped = None,
          uncaught = Some no_scraper_specified\<rparr>"
  by (simp add: main_def parse_args_def)

text \<open>The sample hierarchy and an empty command line.\<close>

theorem no_scraper_selected_witness:
  "main add_parser_store parse_argv_plain from_args_two no_format tempname_tmp Scraper_sample []
     = \<lparr>constructed = [], printed = [], ended = None, dumped = None,
        uncaught = Some no_scraper_specified\<rparr>"
proof -
  obtain sp where r: "register_loop add_parser_store (subclasses Scraper_sample) 0 []
                      = Inr (traversal (subclasses Scraper_sample), sp)"
    using register_loop_traversal[of 0 "subclasses Scraper_sample" add_parser_store "[]"]
      register_all_store[of "named (traversal (subclasses Scraper_sample))" "[]"]
    by auto
  have p: "parse_argv_plain sp [] =
             Inr \<lparr>verbosity = 0, retries = 3, maxResults = None, format = None, since = None,
                  scraper = None, cls = None\<rparr>"
    by (simp add: parse_argv_plain_def)
  have n: "scraper \<lparr>verbosity = 0, retries = 3, maxResults = None, format = None,
                     since = None, scraper = None, cls = None\<rparr> = None"
    by simp
  from no_scraper_selected[where ap = add_parser_store and Scraper = Scraper_sample
      and classes = "traversal (subclasses Scraper_sample)" and sp = sp
      and parse_argv = parse_argv_plain and argv = "[]"
      and a = "\<lparr>verbosity = 0, retries = 3, maxResults = None, format = None,
                 since = None, scraper = None, cls = None\<rparr>"
      and from_args = from_args_two and str_format = no_format and tempname = tempname_tmp]
    r p n
  show ?thesis by blast
qed

subsection \<open>Properties of the datetime parser\<close>


lemma try_formats_first:
  "i < length fmts \<Longrightarrow> strptime lib arg (fmts ! i) = Some d \<Longrightarrow>
   \<forall>j<i. strptime lib arg (fmts ! j) = None \<Longrightarrow>
   try_formats lib arg fmts = Some (if tzinfo d = None then d\<lparr>tzinfo := Some utc\<rparr> else d)"
proof (induction fmts arbitrary: i)
  case Nil
  then show ?case by simp
next
  case (Cons fmt fmts)
  show ?case
  proof (cases i)
    case 0
    with Cons.prems show ?thesis by simp
  next
    case (Suc k)
    have h: "strptime lib arg fmt = None" using Cons.prems(3) Suc by auto
    have n: "\<forall>j<k. strptime lib arg (fmts ! j) = None"
      using Cons.prems(3) Suc by auto
    have k: "k < length fmts" using Cons.prems(1) Suc by simp
    have s: "strptime lib arg (fmts ! k) = Some d" using Cons.prems(2) Suc by simp
    from Cons.IH[OF k s n] h show ?thesis by simp
  qed
qed

lemma try_formats_none:
  "\<forall>fmt \<in> set fmts. strptime lib arg fmt = None \<Longrightarrow> try_formats lib arg fmts = None"
  by (induction fmts) simp_all

text \<open>
  Claim C4. The formats are tried in the order date and time with offset, date and time,
  date with offset, date only, and the value of the first format that \<open>strptime\<close> accepts
  is returned: as it is when it carries an offset, with \<open>tzinfo\<close> set to UTC and the fields
  unchanged when it carries none. So a string that only the date-only format accepts, and
  that \<open>strptime\<close> reads as midnight of a day, gives midnight UTC of that day.
\<close>

theorem first_layout_wins:
  "formats = [''%Y-%m-%d %H:%M:%S %z'', ''%Y-%m-%d %H:%M:%S'', ''%Y-%m-%d %z'', ''%Y-%m-%d'']
   \<and> (i < length formats \<and> strptime lib arg (formats ! i) = Some d
        \<and> (\<forall>j<i. strptime lib arg (formats ! j) = None) \<longrightarrow>
        parse_datetime_arg lib arg
          = Inr (if tzinfo d = None then d\<lparr>tzinfo := Some utc\<rparr> else d))
   \<and> (strptime lib arg ''%Y-%m-%d %H:%M:%S %z'' = None
        \<and> strptime lib arg ''%Y-%m-%d %H:%M:%S'' = None
        \<and> strptime lib arg ''%Y-%m-%d %z'' = None
        \<and> strptime lib arg ''%Y-%m-%d'' = Some \<lparr>naive_seconds = 86400 * day, tzinfo = None\<rparr> \<longrightarrow>
        parse_datetime_arg lib arg = Inr \<lparr>naive_seconds = 86400 * day, tzinfo = Some 0\<rparr>)"
proof (intro conjI impI)
  show "formats = [''%Y-%m-%d %H:%M:%S %z'', ''%Y-%m-%d %H:%M:%S'', ''%Y-%m-%d %z'', ''%Y-%m-%d'']"
    by (simp add: formats_def)
next
  assume "i < length formats \<and> strptime lib arg (formats ! i) = Some d
        \<and> (\<forall>j<i. strptime lib arg (formats ! j) = None)"
  then have "try_formats lib arg formats
             = Some (if tzinfo d = None then d\<lparr>tzinfo := Some utc\<rparr> else d)"
    using try_formats_first by blast
  then show "parse_datetime_arg lib arg
          = Inr (if tzinfo d = None then d\<lparr>tzinfo := Some utc\<rparr> else d)"
    by (simp add: parse_datetime_arg_def)
next
  assume "strptime lib arg ''%Y-%m-%d %H:%M:%S %z'' = None
        \<and> strptime lib arg ''%Y-%m-%d %H:%M:%S'' = None
        \<and> strptime lib arg ''%Y-%m-%d %z'' = None
        \<and> strptime lib arg ''%Y-%m-%d'' = Some \<lparr>naive_seconds = 86400 * day, tzinfo = None\<rparr>"
  then show "parse_datetime_arg lib arg = Inr \<lparr>naive_seconds = 86400 * day, tzinfo = Some 0\<rparr>"
    by (simp add: parse_datetime_arg_def formats_def utc_def)
qed

text \<open>
  The date 2023-01-02, day 19359 after 1970-01-01, and a date and time with the offset
  +0100, which keeps its offset.
\<close>

theorem first_layout_wins_witness:
  "parse_datetime_arg sample_lib ''2023-01-02''
     = Inr \<lparr>naive_seconds = 86400 * 19359, tzinfo = Some 0\<rparr>
   \<and> parse_datetime_arg sample_lib ''2023-01-02 03:04:05 +0100''
     = Inr \<lparr>naive_seconds = 1672628645, tzinfo = Some 3600\<rparr>"
proof -
  have a: "strptime sample_lib ''2023-01-02'' ''%Y-%m-%d %H:%M:%S %z'' = None
        \<and> strptime sample_lib ''2023-01-02'' ''%Y-%m-%d %H:%M:%S'' = None
        \<and> strptime sample_lib ''2023-01-02'' ''%Y-%m-%d %z'' = None
        \<and> strptime sample_lib ''2023-01-02'' ''%Y-%m-%d''
            = Some \<lparr>naive_seconds = 86400 * 19359, tzinfo = None\<rparr>"
    by (simp add: sample_lib_def strptime_table_def)
  have 1: "parse_datetime_arg sample_lib ''2023-01-02''
           = Inr \<lparr>naive_seconds = 86400 * 19359, tzinfo = Some 0\<rparr>"
    using first_layout_wins[where lib = sample_lib and arg = "''2023-01-02''" and day = 19359] a
    by blast
  have b: "0 < length formats
        \<and> strptime sample_lib ''2023-01-02 03:04:05 +0100'' (formats ! 0)
            = Some \<lparr>naive_seconds = 1672628645, tzinfo = Some 3600\<rparr>
        \<and> (\<forall>j<0. strptime sample_lib ''2023-01-02 03:04:05 +0100'' (formats ! j) = None)"
    by (simp add: sample_lib_def strptime_table_def formats_def)
  have 2: "parse_datetime_arg sample_lib ''2023-01-02 03:04:05 +0100''
           = Inr \<lparr>naive_seconds = 1672628645, tzinfo = Some 3600\<rparr>"
    using first_layout_wins[where lib = sample_lib and arg = "''2023-01-02 03:04:05 +0100''"
        and i = 0 and d = "\<lparr>naive_seconds = 1672628645, tzinfo = Some 3600\<rparr>"] b
    by simp
  from 1 2 show ?thesis by simp
qed

text \<open>
  Claim C5 says that a string that no format matches and that represents an integer gives
  that integer as a timestamp. \<open>99999999999999\<close> is such a string; \<open>fromtimestamp\<close> raises
  \<open>ValueError\<close> for it (the year is beyond 9999), the \<open>except ValueError\<close> catches it, and
  the result is the \<open>ArgumentTypeError\<close>.
\<close>

theorem integer_out_of_range_counterexample:
  "map (strptime sample_lib ''99999999999999'') formats = [None, None, None, None]
   \<and> py_int sample_lib ''99999999999999'' = Some 99999999999999
   \<and> parse_datetime_arg sample_lib ''99999999999999''
       = Inl (ArgumentTypeError sample_lib ''99999999999999'')"
  by (simp add: parse_datetime_arg_def sample_lib_def formats_def strptime_table_def
        int_ascii_def strip_def py_space_def digit_val_def fromtimestamp_cpython_def)

text \<open>
  Claim C5, as the code has it. For a string that no format matches: when \<open>int\<close> raises
  \<open>ValueError\<close>, the result is the \<open>ArgumentTypeError\<close> whose message holds the \<open>repr\<close> of
  the string; when \<open>int\<close> returns \<open>n\<close> and \<open>fromtimestamp\<close> returns a datetime for it, that
  datetime is the result; when \<open>fromtimestamp\<close> raises \<open>ValueError\<close> for \<open>n\<close>, the result
  is the same \<open>ArgumentTypeError\<close>.
\<close>

theorem timestamp_fallback:
  "(\<forall>fmt \<in> set formats. strptime lib arg fmt = None) \<longrightarrow>
     (py_int lib arg = None \<longrightarrow> parse_datetime_arg lib arg = Inl (ArgumentTypeError lib arg))
   \<and> (py_int lib arg = Some n \<and> fromtimestamp_utc lib n = Inr d \<longrightarrow>
        parse_datetime_arg lib arg = Inr d)
   \<and> (py_int lib arg = Some n \<and> fromtimestamp_utc lib n = Inl e \<and> exc_class e = ''ValueError'' \<longrightarrow>
        parse_datetime_arg lib arg = Inl (ArgumentTypeError lib arg))"
proof
  assume "\<forall>fmt \<in> set formats. strptime lib arg fmt = None"
  then have "try_formats lib arg formats = None" by (rule try_formats_none)
  then show "(py_int lib arg = None \<longrightarrow> parse_datetime_arg lib arg = Inl (ArgumentTypeError lib arg))
   \<and> (py_int lib arg = Some n \<and> fromtimestamp_utc lib n = Inr d \<longrightarrow>
        parse_datetime_arg lib arg = Inr d)
   \<and> (py_int lib arg = Some n \<and> fromtimestamp_utc lib n = Inl e \<and> exc_class e = ''ValueError'' \<longrightarrow>
        parse_datetime_arg lib arg = Inl (ArgumentTypeError lib arg))"
    by (simp add: parse_datetime_arg_def)
qed

text \<open>A word, and the timestamp of 2023-01-02 03:04:05 UTC.\<close>

theorem timestamp_fallback_witness:
  "parse_datetime_arg sample_lib ''tomorrow'' = Inl (ArgumentTypeError sample_lib ''tomorrow'')
   \<and> exc_msg (ArgumentTypeError sample_lib ''tomorrow'')
       = ''Cannot parse '' @ [CHR 39] @ ''tomorrow'' @ [CHR 39] @ '' into a datetime object''
   \<and> parse_datetime_arg sample_lib ''1672628645''
       = Inr \<lparr>naive_seconds = 1672628645, tzinfo = Some 0\<rparr>"
proof -
  have f: "\<forall>fmt \<in> set formats. strptime sample_lib ''tomorrow'' fmt = None"
    by (simp add: sample_lib_def strptime_table_def formats_def)
  have i: "py_int sample_lib ''tomorrow'' = None"
    by (simp add: sample_lib_def int_ascii_def strip_def py_space_def digit_val_def)
  have 1: "parse_datetime_arg sample_lib ''tomorrow'' = Inl (ArgumentTypeError sample_lib ''tomorrow'')"
    using timestamp_fallback[where lib = sample_lib and arg = "''tomorrow''"] f i by blast
  have f': "\<forall>fmt \<in> set formats. strptime sample_lib ''1672628645'' fmt = None"
    by (simp add: sample_lib_def strptime_table_def formats_def)
  have i': "py_int sample_lib ''1672628645'' = Some 1672628645"
    by (simp add: sample_lib_def int_ascii_def strip_def py_space_def digit_val_def)
  have t': "fromtimestamp_utc sample_lib 1672628645
            = Inr \<lparr>naive_seconds = 1672628645, tzinfo = Some 0\<rparr>"
    by (simp add: sample_lib_def fromtimestamp_cpython_def utc_def)
  have 2: "parse_datetime_arg sample_lib ''1672628645''
           = Inr \<lparr>naive_seconds = 1672628645, tzinfo = Some 0\<rparr>"
    using timestamp_fallback[where lib = sample_lib and arg = "''1672628645''"
        and n = 1672628645 and d = "\<lparr>naive_seconds = 1672628645, tzinfo = Some 0\<rparr>"] f' i' t'
    by blast
  have 3: "exc_msg (ArgumentTypeError sample_lib ''tomorrow'')
       = ''Cannot parse '' @ [CHR 39] @ ''tomorrow'' @ [CHR 39] @ '' into a datetime object''"
    by (simp add: ArgumentTypeError_def sample_lib_def repr_plain_def)
  from 1 2 3 show ?thesis by simp
qed

end
